theory Spec2Isabelle
  imports Main
begin

section \<open>Command-line configuration of the instrumented test run\<close>

text \<open>
  The namespace that \<open>parse_args\<close> of \<open>tests/instrumented.py\<close> returns: four
  instrumentation flags, the \<open>--none\<close> flag and the positional engine path. Every flag is
  declared with \<open>action="store_true"\<close>, so each is an independent boolean.
\<close>

record args =
  valgrind :: bool
  valgrind_thread :: bool
  sanitizer_undefined :: bool
  sanitizer_thread :: bool
  none :: bool
  engine_path :: string

text \<open>
  The two command lines of the \<open>Valgrind\<close> helper class. The class lives in the
  \<open>testing\<close> module, which is not part of the sources at hand, so both lists are
  parameters of the model.
\<close>

record valgrind_tool =
  get_valgrind_command :: "string list"
  get_valgrind_thread_command :: "string list"

definition get_prefix :: "valgrind_tool \<Rightarrow> args \<Rightarrow> string list" where
  "get_prefix V a =
     (if valgrind a then get_valgrind_command V
      else if valgrind_thread a then get_valgrind_thread_command V
      else [])"

definition get_threads :: "args \<Rightarrow> nat" where
  "get_threads a = (if valgrind_thread a \<or> sanitizer_thread a then 2 else 1)"

section \<open>Scanning captured output for sanitizer diagnostics\<close>

text \<open>Python's \<open>sub in line\<close> on strings: \<open>sub\<close> occurs as a contiguous run of \<open>line\<close>.\<close>

fun str_in :: "string \<Rightarrow> string \<Rightarrow> bool" where
  "str_in s [] = (s = [])"
| "str_in s (c # cs) = (take (length s) (c # cs) = s \<or> str_in s cs)"

text \<open>
  The inner loop \<open>for i in range(50)\<close>: the line at \<open>idx + i\<close> is printed when that
  index is inside the list.
\<close>

definition debug_lines :: "string list \<Rightarrow> nat \<Rightarrow> string list" where
  "debug_lines out idx =
     concat (map (\<lambda>i. if idx + i < length out then [out ! (idx + i)] else [])
                 [0..<50])"

text \<open>
  The outer loop \<open>for idx, line in enumerate(output)\<close>. The result is \<open>Some printed\<close>
  when the loop leaves through \<open>return False\<close> and \<open>None\<close> when it runs to its end.
\<close>

fun scan_lines :: "string \<Rightarrow> string list \<Rightarrow> nat \<Rightarrow> string list \<Rightarrow> string list option" where
  "scan_lines s out idx [] = None"
| "scan_lines s out idx (line # rest) =
     (if str_in s line then Some (debug_lines out idx)
      else scan_lines s out (Suc idx) rest)"

text \<open>
  \<open>postfix_check\<close> returns the lines it printed together with its boolean result.
\<close>

definition postfix_check :: "args \<Rightarrow> string list \<Rightarrow> string list \<times> bool" where
  "postfix_check a out =
     (case (if sanitizer_undefined a then scan_lines ''runtime error:'' out 0 out
            else None) of
        Some printed \<Rightarrow> (printed, False)
      | None \<Rightarrow>
          (case (if sanitizer_thread a
                 then scan_lines ''WARNING: ThreadSanitizer:'' out 0 out
                 else None) of
             Some printed \<Rightarrow> (printed, False)
           | None \<Rightarrow> ([], True)))"

section \<open>Parsing the command line\<close>

text \<open>
  \<open>parse_args\<close> declares five \<open>store_true\<close> options and one required positional
  argument, and no mutually exclusive group. The model covers the command lines made of
  the five option strings written in full and of tokens that do not start with a dash:
  an option sets its flag, the first other token is the engine path, a second one is a
  usage error, and so is a missing engine path. Any other token that starts with a dash
  (an abbreviated option, \<open>-h\<close>, an unknown option) is outside this fragment and yields
  \<open>Unmodelled\<close>.
\<close>

datatype parsed = Parsed args | UsageError | Unmodelled

definition no_flags :: args where
  "no_flags = \<lparr>valgrind = False, valgrind_thread = False, sanitizer_undefined = False,
               sanitizer_thread = False, none = False, engine_path = []\<rparr>"

fun parse_tokens :: "string list \<Rightarrow> args \<Rightarrow> bool \<Rightarrow> parsed" where
  "parse_tokens [] a have_path = (if have_path then Parsed a else UsageError)"
| "parse_tokens (t # ts) a have_path =
     (if t = ''--valgrind'' then parse_tokens ts (a\<lparr>valgrind := True\<rparr>) have_path
      else if t = ''--valgrind-thread''
        then parse_tokens ts (a\<lparr>valgrind_thread := True\<rparr>) have_path
      else if t = ''--sanitizer-undefined''
        then parse_tokens ts (a\<lparr>sanitizer_undefined := True\<rparr>) have_path
      else if t = ''--sanitizer-thread''
        then parse_tokens ts (a\<lparr>sanitizer_thread := True\<rparr>) have_path
      else if t = ''--none'' then parse_tokens ts (a\<lparr>none := True\<rparr>) have_path
      else if take 1 t = ''-'' then Unmodelled
      else if have_path then UsageError
      else parse_tokens ts (a\<lparr>engine_path := t\<rparr>) True)"

definition parse_args :: "string list \<Rightarrow> parsed" where
  "parse_args argv = parse_tokens argv no_flags False"

section \<open>The engine session\<close>

text \<open>
  Failures a hook or a test body can end with: Python's \<open>AssertionError\<close> and
  \<open>AttributeError\<close>, and the session failures the specification names.
\<close>

datatype error =
    AssertionError | AttributeError | AssertionTimeout | StaleSessionError | SpawnError

text \<open>
  Modelled from the spec: the class \<open>Engine\<close> (imported as \<open>DON\<close> from the
  \<open>testing\<close> module) is missing from the sources. A session holds the command lines
  written to the child process, the OutputLog of lines captured so far, the lines the
  child process delivers from the read cursor onward before a wait times out, and the
  exit code, which is unknown while the process runs.
\<close>

record engine =
  sent :: "string list"
  output_log :: "string list"
  pending :: "string list"
  returncode :: "int option"

definition get_output :: "engine \<Rightarrow> string list" where
  "get_output e = output_log e"

definition clear_output :: "engine \<Rightarrow> engine" where
  "clear_output e = e\<lparr>output_log := []\<rparr>"

text \<open>
  Modelled from the spec: \<open>write(line)\<close> appends the line to the input of the process and
  fails with \<open>StaleSessionError\<close> when the process has already exited.
\<close>

definition send_command :: "string \<Rightarrow> engine \<Rightarrow> error option \<times> engine" where
  "send_command c e =
     (if returncode e \<noteq> None then (Some StaleSessionError, e)
      else (None, e\<lparr>sent := sent e @ [c]\<rparr>))"

text \<open>
  Modelled from the spec: a waiting assertion scans the unconsumed lines for the first
  one that satisfies its predicate and consumes the lines up to and including it; when
  no line does, everything delivered is consumed and the wait ends in a timeout.
\<close>

fun wait_for :: "(string \<Rightarrow> bool) \<Rightarrow> string list \<Rightarrow> (string list \<times> string list) option" where
  "wait_for P [] = None"
| "wait_for P (l # ls) =
     (if P l then Some ([l], ls)
      else (case wait_for P ls of
              None \<Rightarrow> None
            | Some (consumed, rest) \<Rightarrow> Some (l # consumed, rest)))"

definition await :: "(string \<Rightarrow> bool) \<Rightarrow> engine \<Rightarrow> error option \<times> engine" where
  "await P e =
     (case wait_for P (pending e) of
        Some (consumed, rest) \<Rightarrow>
          (None, e\<lparr>output_log := output_log e @ consumed, pending := rest\<rparr>)
      | None \<Rightarrow>
          (Some AssertionTimeout, e\<lparr>output_log := output_log e @ pending e, pending := []\<rparr>))"

text \<open>
  Modelled from the spec: a glob pattern matches a whole line, \<open>*\<close> standing for any run
  of characters and every other character for itself.
\<close>

fun glob_match :: "string \<Rightarrow> string \<Rightarrow> bool" where
  "glob_match [] s = (s = [])"
| "glob_match (p # ps) [] = (p = CHR ''*'' \<and> glob_match ps [])"
| "glob_match (p # ps) (c # cs) =
     (if p = CHR ''*'' then glob_match ps (c # cs) \<or> glob_match (p # ps) cs
      else p = c \<and> glob_match ps cs)"

definition expect :: "string \<Rightarrow> engine \<Rightarrow> error option \<times> engine" where
  "expect pattern e = await (glob_match pattern) e"

definition equals :: "string \<Rightarrow> engine \<Rightarrow> error option \<times> engine" where
  "equals text e = await (\<lambda>line. line = text) e"

section \<open>Test instances, hooks and test bodies\<close>

text \<open>
  A test instance is the \<open>self\<close> of a suite class: its \<open>engine\<close> attribute (\<open>None\<close>
  after \<open>TestCLI.beforeEach\<close>) and the lines printed while its methods run.
\<close>

record test_instance =
  engine :: "engine option"
  printed :: "string list"

type_synonym hook = "test_instance \<Rightarrow> error option \<times> test_instance"

text \<open>A method call on \<open>self.engine\<close>; on \<open>None\<close> Python raises \<open>AttributeError\<close>.\<close>

definition on_engine :: "(engine \<Rightarrow> error option \<times> engine) \<Rightarrow> hook" where
  "on_engine f s =
     (case engine s of
        None \<Rightarrow> (Some AttributeError, s)
      | Some e \<Rightarrow> (case f e of (r, e') \<Rightarrow> (r, s\<lparr>engine := Some e'\<rparr>)))"

text \<open>The statements of a method body in sequence; the first failure ends the body.\<close>

fun run_steps :: "hook list \<Rightarrow> hook" where
  "run_steps [] s = (None, s)"
| "run_steps (f # fs) s =
     (case f s of
        (Some x, s') \<Rightarrow> (Some x, s')
      | (None, s') \<Rightarrow> run_steps fs s')"

text \<open>
  \<open>afterEach\<close>, the same in \<open>TestCLI\<close>, \<open>TestInteractive\<close> and \<open>TestSyzygy\<close>: the
  assertion on \<open>postfix_check\<close> comes first, \<open>clear_output\<close> second.
\<close>

definition afterEach :: "args \<Rightarrow> hook" where
  "afterEach a s =
     (case engine s of
        None \<Rightarrow> (Some AttributeError, s)
      | Some e \<Rightarrow>
          (case postfix_check a (get_output e) of
             (lines, ok) \<Rightarrow>
               (if ok
                then (None, s\<lparr>engine := Some (clear_output e),
                               printed := printed s @ lines\<rparr>)
                else (Some AssertionError, s\<lparr>printed := printed s @ lines\<rparr>))))"

text \<open>\<open>TestCLI.beforeEach\<close>: \<open>self.engine = None\<close>.\<close>

definition beforeEach :: "test_instance \<Rightarrow> test_instance" where
  "beforeEach s = s\<lparr>engine := None\<rparr>"

text \<open>Python's \<open>str\<close> on a non-negative integer.\<close>

definition digit :: "nat \<Rightarrow> char" where
  "digit d = ''0123456789'' ! d"

fun str :: "nat \<Rightarrow> string" where
  "str n = (if n < 10 then [digit n] else str (n div 10) @ [digit (n mod 10)])"

declare str.simps [simp del]

definition test_set_threads_option :: "args \<Rightarrow> hook" where
  "test_set_threads_option a =
     run_steps
       [on_engine (send_command (''setoption name Threads value '' @ str (get_threads a)))]"

definition test_fen_position_mate_1 :: hook where
  "test_fen_position_mate_1 =
     run_steps
       [on_engine (send_command ''ucinewgame''),
        on_engine (send_command ''position fen 5K2/8/2qk4/2nPp3/3r4/6B1/B7/3R4 w - e6''),
        on_engine (send_command ''go depth 18''),
        on_engine (expect ''* score mate 1 * pv d5e6''),
        on_engine (equals ''bestmove d5e6'')]"

section \<open>The valgrind command lines\<close>

text \<open>
  Modelled from the spec: the class \<open>Valgrind\<close> of the \<open>testing\<close> module is missing from
  the sources. Each of its two command lines is an invocation of the external checker
  tool: the program of the tool followed by its options.
\<close>

definition checker_invocation :: "string \<Rightarrow> string list \<Rightarrow> string list" where
  "checker_invocation program opts = program # opts"

definition Valgrind :: "string \<Rightarrow> string list \<Rightarrow> string list \<Rightarrow> valgrind_tool" where
  "Valgrind program opts thread_opts =
     \<lparr>get_valgrind_command = checker_invocation program opts,
      get_valgrind_thread_command = checker_invocation program thread_opts\<rparr>"

section \<open>The suite runner and the run\<close>

text \<open>
  What the methods of a suite class can reach: the instance \<open>self\<close> and the
  process-wide thread-sanitizer option of the environment.
\<close>

record world =
  self :: test_instance
  tsan_options :: bool

text \<open>A method of the source, written over \<open>self\<close>, as a step on the world.\<close>

definition on_self :: "hook \<Rightarrow> world \<Rightarrow> error option \<times> world" where
  "on_self h w = (case h (self w) of (r, s) \<Rightarrow> (r, w\<lparr>self := s\<rparr>))"

text \<open>
  Modelled from the spec: \<open>MiniTestFramework\<close> and the metaclass \<open>OrderedClassMembers\<close>
  belong to the \<open>testing\<close> module, which is missing from the sources. A suite is its
  name, the creation of its instance, the four lifecycle hooks and the registration
  list of \<open>(name, body)\<close> pairs. The per-test setup cannot fail: the only \<open>beforeEach\<close> of
  the source is an assignment.
\<close>

record 'w suite =
  suite_name :: string
  new_instance :: "'w \<Rightarrow> 'w"
  before_all :: "'w \<Rightarrow> error option \<times> 'w"
  after_all :: "'w \<Rightarrow> error option \<times> 'w"
  before_each :: "'w \<Rightarrow> 'w"
  after_each :: "'w \<Rightarrow> error option \<times> 'w"
  tests :: "(string \<times> ('w \<Rightarrow> error option \<times> 'w)) list"

text \<open>
  Modelled from the spec: the metaclass builds the registration list when the class is
  defined, appending each \<open>(name, body)\<close> pair as the class body declares it.
\<close>

definition register :: "(string \<times> 'b) list \<Rightarrow> string \<times> 'b \<Rightarrow> (string \<times> 'b) list" where
  "register registry declaration = registry @ [declaration]"

definition OrderedClassMembers :: "(string \<times> 'b) list \<Rightarrow> (string \<times> 'b) list" where
  "OrderedClassMembers declarations = foldl register [] declarations"

datatype outcome = Passed | Failed error | Errored error

text \<open>
  Modelled from the spec: an assertion failure or an assertion timeout fails the test,
  any other raised error makes it errored.
\<close>

definition outcome_of :: "error \<Rightarrow> outcome" where
  "outcome_of x = (if x = AssertionError \<or> x = AssertionTimeout then Failed x else Errored x)"

text \<open>What the run does, in the order it does it.\<close>

datatype event =
    CreateBenchEpd | SetTsanOption | DownloadSyzygy | DeleteBenchEpd | UnsetTsanOption
  | EnterDirectory string | LeaveDirectory string
  | SuiteSetup string | SuiteTeardown string
  | TestSetup string string | TestBody string string | TestTeardown string string

text \<open>
  Modelled from the spec: the runner's own state is the record of what happened, the
  outcome of every test, the suites whose setup or teardown raised, and the flag that is
  the logical OR of all failures so far.
\<close>

record framework =
  trace :: "event list"
  results :: "(string \<times> string \<times> outcome) list"
  suite_errors :: "(string \<times> error) list"
  failed :: bool

definition new_framework :: framework where
  "new_framework = \<lparr>trace = [], results = [], suite_errors = [], failed = False\<rparr>"

definition record_event :: "event \<Rightarrow> framework \<Rightarrow> framework" where
  "record_event ev fw = fw\<lparr>trace := trace fw @ [ev]\<rparr>"

definition record_outcome :: "string \<Rightarrow> string \<Rightarrow> outcome \<Rightarrow> framework \<Rightarrow> framework" where
  "record_outcome sn tn oc fw =
     fw\<lparr>results := results fw @ [(sn, tn, oc)], failed := (failed fw \<or> oc \<noteq> Passed)\<rparr>"

definition record_suite_error :: "string \<Rightarrow> error option \<Rightarrow> framework \<Rightarrow> framework" where
  "record_suite_error sn r fw =
     (case r of
        None \<Rightarrow> fw
      | Some x \<Rightarrow> fw\<lparr>suite_errors := suite_errors fw @ [(sn, x)], failed := True\<rparr>)"

text \<open>
  Modelled from the spec, step 3: per-test setup, the body with its failure caught, then
  the per-test teardown whatever the body did; a failure of the teardown is recorded
  against the test when the body itself passed.
\<close>

definition run_test ::
  "'w suite \<Rightarrow> string \<times> ('w \<Rightarrow> error option \<times> 'w) \<Rightarrow> framework \<times> 'w \<Rightarrow> framework \<times> 'w" where
  "run_test S t st =
     (case st of (fw, w) \<Rightarrow>
        (case t of (tn, body) \<Rightarrow>
           (let fw1 = record_event (TestSetup (suite_name S) tn) fw;
                w1 = before_each S w;
                fw2 = record_event (TestBody (suite_name S) tn) fw1;
                (r2, w2) = body w1;
                fw3 = record_event (TestTeardown (suite_name S) tn) fw2;
                (r3, w3) = after_each S w2;
                oc = (case r2 of
                        Some x \<Rightarrow> outcome_of x
                      | None \<Rightarrow> (case r3 of Some y \<Rightarrow> outcome_of y | None \<Rightarrow> Passed))
            in (record_outcome (suite_name S) tn oc fw3, w3))))"

fun run_tests ::
  "'w suite \<Rightarrow> (string \<times> ('w \<Rightarrow> error option \<times> 'w)) list \<Rightarrow> framework \<times> 'w \<Rightarrow> framework \<times> 'w" where
  "run_tests S [] st = st"
| "run_tests S (t # ts) st = run_tests S ts (run_test S t st)"

text \<open>
  Modelled from the spec, steps 1, 2 and 4: the suite runs inside its own directory on a
  fresh instance; a failing suite setup marks the suite errored and skips its tests; the
  suite teardown runs in either case, and a failure of it marks the suite errored too.
\<close>

definition run_suite :: "'w suite \<Rightarrow> framework \<times> 'w \<Rightarrow> framework \<times> 'w" where
  "run_suite S st =
     (case st of (fw, w) \<Rightarrow>
        (let n = suite_name S;
             fw1 = record_event (SuiteSetup n) (record_event (EnterDirectory n) fw);
             (r0, w0) = before_all S (new_instance S w);
             fw2 = record_suite_error n r0 fw1;
             (fw3, w3) = (if r0 = None then run_tests S (tests S) (fw2, w0) else (fw2, w0));
             fw4 = record_event (SuiteTeardown n) fw3;
             (r9, w9) = after_all S w3;
             fw5 = record_suite_error n r9 fw4
         in (record_event (LeaveDirectory n) fw5, w9)))"

text \<open>
  Modelled from the spec: every failure inside a suite is caught and recorded, so the
  run of a list of suites always returns.
\<close>

fun run :: "'w suite list \<Rightarrow> framework \<times> 'w \<Rightarrow> framework \<times> 'w" where
  "run [] st = st"
| "run (S # Ss) st = run Ss (run_suite S st)"

definition has_failed :: "framework \<Rightarrow> bool" where
  "has_failed fw = failed fw"

section \<open>The suite classes of the source\<close>

text \<open>
  The test methods whose bodies are not modelled, and \<open>beforeAll\<close> and \<open>afterAll\<close> of
  the two interactive classes, drive the engine through operations of the missing
  \<open>testing\<close> module; they are a parameter, indexed by class and method name.
\<close>

type_synonym members = "string \<Rightarrow> string \<Rightarrow> world \<Rightarrow> error option \<times> world"

definition passing :: "'w \<Rightarrow> error option \<times> 'w" where
  "passing w = (None, w)"

definition raising :: "error \<Rightarrow> 'w \<Rightarrow> error option \<times> 'w" where
  "raising x w = (Some x, w)"

text \<open>Creating the instance of a class: it has no \<open>engine\<close> attribute yet.\<close>

definition fresh_instance :: "world \<Rightarrow> world" where
  "fresh_instance w = w\<lparr>self := \<lparr>engine = None, printed = []\<rparr>\<rparr>"

text \<open>
  \<open>class TestCLI(metaclass=OrderedClassMembers)\<close>: \<open>beforeAll\<close> and \<open>afterAll\<close> are
  \<open>pass\<close>, \<open>beforeEach\<close> drops the engine, and the test methods follow in the order of
  the class body.
\<close>

definition TestCLI :: "args \<Rightarrow> members \<Rightarrow> world suite" where
  "TestCLI a B =
     \<lparr>suite_name = ''TestCLI'', new_instance = fresh_instance,
      before_all = passing, after_all = passing,
      before_each = (\<lambda>w. w\<lparr>self := beforeEach (self w)\<rparr>),
      after_each = on_self (afterEach a),
      tests = OrderedClassMembers
         [(''test_eval'', B ''TestCLI'' ''test_eval''),
          (''test_go_nodes_1000'', B ''TestCLI'' ''test_go_nodes_1000''),
          (''test_go_depth_10'', B ''TestCLI'' ''test_go_depth_10''),
          (''test_go_perft_4'', B ''TestCLI'' ''test_go_perft_4''),
          (''test_go_movetime_1000'', B ''TestCLI'' ''test_go_movetime_1000''),
          (''test_go_wtime_8000_btime_8000_winc_500_binc_500'', B ''TestCLI'' ''test_go_wtime_8000_btime_8000_winc_500_binc_500''),
          (''test_go_wtime_1000_btime_1000_winc_0_binc_0'', B ''TestCLI'' ''test_go_wtime_1000_btime_1000_winc_0_binc_0''),
          (''test_go_wtime_1000_btime_1000_winc_0_binc_0_movestogo_5'', B ''TestCLI'' ''test_go_wtime_1000_btime_1000_winc_0_binc_0_movestogo_5''),
          (''test_go_movetime_200'', B ''TestCLI'' ''test_go_movetime_200''),
          (''test_go_nodes_20000_searchmoves_e2e4_d2d4'', B ''TestCLI'' ''test_go_nodes_20000_searchmoves_e2e4_d2d4''),
          (''test_bench_128_threads_8_default_depth'', B ''TestCLI'' ''test_bench_128_threads_8_default_depth''),
          (''test_show'', B ''TestCLI'' ''test_show''),
          (''test_compiler'', B ''TestCLI'' ''test_compiler''),
          (''test_license'', B ''TestCLI'' ''test_license''),
          (''test_uci'', B ''TestCLI'' ''test_uci''),
          (''test_export_net_verify_nnue'', B ''TestCLI'' ''test_export_net_verify_nnue''),
          (''test_network_equals_base'', B ''TestCLI'' ''test_network_equals_base'')]\<rparr>"

text \<open>
  \<open>class TestInteractive(metaclass=OrderedClassMembers)\<close>: no \<open>beforeEach\<close>; the engine
  is created in \<open>beforeAll\<close> and shared by the tests.
\<close>

definition TestInteractive :: "args \<Rightarrow> members \<Rightarrow> world suite" where
  "TestInteractive a B =
     \<lparr>suite_name = ''TestInteractive'', new_instance = fresh_instance,
      before_all = B ''TestInteractive'' ''beforeAll'',
      after_all = B ''TestInteractive'' ''afterAll'',
      before_each = (\<lambda>w. w),
      after_each = on_self (afterEach a),
      tests = OrderedClassMembers
         [(''test_startup_output'', B ''TestInteractive'' ''test_startup_output''),
          (''test_uci_command'', B ''TestInteractive'' ''test_uci_command''),
          (''test_set_threads_option'', on_self (test_set_threads_option a)),
          (''test_ucinewgame_and_startpos_nodes_1000'', B ''TestInteractive'' ''test_ucinewgame_and_startpos_nodes_1000''),
          (''test_ucinewgame_and_startpos_moves'', B ''TestInteractive'' ''test_ucinewgame_and_startpos_moves''),
          (''test_fen_position_1'', B ''TestInteractive'' ''test_fen_position_1''),
          (''test_fen_position_2_flip'', B ''TestInteractive'' ''test_fen_position_2_flip''),
          (''test_depth_5_with_callback'', B ''TestInteractive'' ''test_depth_5_with_callback''),
          (''test_ucinewgame_and_go_depth_9'', B ''TestInteractive'' ''test_ucinewgame_and_go_depth_9''),
          (''test_clear_hash'', B ''TestInteractive'' ''test_clear_hash''),
          (''test_fen_position_mate_1'', on_self test_fen_position_mate_1),
          (''test_fen_position_mate_minus_1'', B ''TestInteractive'' ''test_fen_position_mate_minus_1''),
          (''test_fen_position_fixed_node'', B ''TestInteractive'' ''test_fen_position_fixed_node''),
          (''test_fen_position_with_mate_go_depth'', B ''TestInteractive'' ''test_fen_position_with_mate_go_depth''),
          (''test_fen_position_with_mate_go_mate'', B ''TestInteractive'' ''test_fen_position_with_mate_go_mate''),
          (''test_fen_position_with_mate_go_nodes'', B ''TestInteractive'' ''test_fen_position_with_mate_go_nodes''),
          (''test_fen_position_depth_27'', B ''TestInteractive'' ''test_fen_position_depth_27''),
          (''test_fen_position_with_mate_go_depth_and_promotion'', B ''TestInteractive'' ''test_fen_position_with_mate_go_depth_and_promotion''),
          (''test_fen_position_with_mate_go_depth_and_searchmoves'', B ''TestInteractive'' ''test_fen_position_with_mate_go_depth_and_searchmoves''),
          (''test_fen_position_with_moves_with_mate_go_depth_and_searchmoves'', B ''TestInteractive'' ''test_fen_position_with_moves_with_mate_go_depth_and_searchmoves''),
          (''test_verify_nnue_network'', B ''TestInteractive'' ''test_verify_nnue_network''),
          (''test_multipv_setting'', B ''TestInteractive'' ''test_multipv_setting''),
          (''test_fen_position_with_skill_level'', B ''TestInteractive'' ''test_fen_position_with_skill_level'')]\<rparr>"

text \<open>\<open>class TestSyzygy(metaclass=OrderedClassMembers)\<close>, built like \<open>TestInteractive\<close>.\<close>

definition TestSyzygy :: "args \<Rightarrow> members \<Rightarrow> world suite" where
  "TestSyzygy a B =
     \<lparr>suite_name = ''TestSyzygy'', new_instance = fresh_instance,
      before_all = B ''TestSyzygy'' ''beforeAll'',
      after_all = B ''TestSyzygy'' ''afterAll'',
      before_each = (\<lambda>w. w),
      after_each = on_self (afterEach a),
      tests = OrderedClassMembers
         [(''test_syzygy_setup'', B ''TestSyzygy'' ''test_syzygy_setup''),
          (''test_syzygy_bench'', B ''TestSyzygy'' ''test_syzygy_bench''),
          (''test_syzygy_position'', B ''TestSyzygy'' ''test_syzygy_position''),
          (''test_syzygy_position_2'', B ''TestSyzygy'' ''test_syzygy_position_2''),
          (''test_syzygy_position_3'', B ''TestSyzygy'' ''test_syzygy_position_3'')]\<rparr>"

text \<open>The argument of \<open>framework.run\<close>.\<close>

definition suite_classes :: "args \<Rightarrow> members \<Rightarrow> world suite list" where
  "suite_classes a B = [TestCLI a B, TestInteractive a B, TestSyzygy a B]"

section \<open>The main program\<close>

text \<open>
  The calls of the main program into the missing \<open>testing\<close> module, each with
  whether it raises. Nothing in the main program catches an exception.
\<close>

record calls =
  create_bench_epd :: bool
  set_tsan_option :: bool
  download_syzygy :: bool
  delete_bench_epd :: bool
  unset_tsan_option :: bool

text \<open>
  The main program after \<open>parse_args\<close>. A call that raises ends the process there, with
  Python's exit code 1 for an uncaught exception, and nothing after it runs. Modelled
  from the spec: \<open>set_tsan_option\<close> sets the process-wide option and \<open>unset_tsan_option\<close>
  unsets it; a call that raises leaves the option as it was.
\<close>

definition main :: "calls \<Rightarrow> args \<Rightarrow> members \<Rightarrow> world \<Rightarrow> framework \<times> world \<times> int" where
  "main C a B w =
     (let fw0 = record_event CreateBenchEpd new_framework in
      if create_bench_epd C then (fw0, w, 1) else
      let fw1 = record_event SetTsanOption fw0 in
      if set_tsan_option C then (fw1, w, 1) else
      let w1 = w\<lparr>tsan_options := True\<rparr>;
          fw2 = record_event DownloadSyzygy fw1 in
      if download_syzygy C then (fw2, w1, 1) else
      let (fw3, w3) = run (suite_classes a B) (fw2, w1);
          fw4 = record_event DeleteBenchEpd fw3 in
      if delete_bench_epd C then (fw4, w3, 1) else
      let fw5 = record_event UnsetTsanOption fw4 in
      if unset_tsan_option C then (fw5, w3, 1) else
      (fw5, w3\<lparr>tsan_options := False\<rparr>, if has_failed fw5 then 1 else 0))"

section \<open>Reading a run\<close>

text \<open>The tests whose bodies ran, as (suite, test) pairs in the order of the trace.\<close>

fun executed :: "event list \<Rightarrow> (string \<times> string) list" where
  "executed [] = []"
| "executed (TestBody sn tn # es) = (sn, tn) # executed es"
| "executed (e # es) = executed es"

text \<open>
  In a trace, every test body is directly followed by the teardown of the same test.
\<close>

definition teardown_follows_body :: "event list \<Rightarrow> bool" where
  "teardown_follows_body tr \<longleftrightarrow>
     (\<forall>i sn tn. i < length tr \<and> tr ! i = TestBody sn tn
        \<longrightarrow> Suc i < length tr \<and> tr ! Suc i = TestTeardown sn tn)"

text \<open>
  One test seen from outside the runner: the world it leaves, from the world in which
  its setup starts, and its outcome.
\<close>

definition test_step :: "'w suite \<Rightarrow> string \<times> ('w \<Rightarrow> error option \<times> 'w) \<Rightarrow> 'w \<Rightarrow> 'w" where
  "test_step S t w = snd (after_each S (snd (snd t (before_each S w))))"

definition test_outcome ::
  "'w suite \<Rightarrow> string \<times> ('w \<Rightarrow> error option \<times> 'w) \<Rightarrow> 'w \<Rightarrow> outcome" where
  "test_outcome S t w =
     (case fst (snd t (before_each S w)) of
        Some x \<Rightarrow> outcome_of x
      | None \<Rightarrow>
          (case fst (after_each S (snd (snd t (before_each S w)))) of
             Some y \<Rightarrow> outcome_of y
           | None \<Rightarrow> Passed))"

text \<open>The world after the tests \<open>ts\<close>, run one after the other from \<open>w\<close>.\<close>

definition world_after_tests ::
  "'w suite \<Rightarrow> (string \<times> ('w \<Rightarrow> error option \<times> 'w)) list \<Rightarrow> 'w \<Rightarrow> 'w" where
  "world_after_tests S ts w = foldl (\<lambda>v t. test_step S t v) w ts"

text \<open>
  The outcomes of the tests \<open>ts\<close> from \<open>w\<close>: test number \<open>k\<close> starts in the world that the
  \<open>k\<close> tests before it leave.
\<close>

definition tests_results ::
  "'w suite \<Rightarrow> (string \<times> ('w \<Rightarrow> error option \<times> 'w)) list \<Rightarrow> 'w
     \<Rightarrow> (string \<times> string \<times> outcome) list" where
  "tests_results S ts w =
     map (\<lambda>k. (suite_name S, fst (ts ! k),
               test_outcome S (ts ! k) (world_after_tests S (take k ts) w)))
         [0 ..< length ts]"

text \<open>
  One suite seen from outside the runner, started in the world \<open>w\<close>: the result of its
  setup, the world in which its test number \<open>k\<close> starts, the world it leaves, and
  whether all of it passed.
\<close>

definition suite_entered :: "'w suite \<Rightarrow> 'w \<Rightarrow> error option \<times> 'w" where
  "suite_entered S w = before_all S (new_instance S w)"

definition test_start :: "'w suite \<Rightarrow> nat \<Rightarrow> 'w \<Rightarrow> 'w" where
  "test_start S k w =
     before_each S (world_after_tests S (take k (tests S)) (snd (suite_entered S w)))"

definition world_after_suite :: "'w suite \<Rightarrow> 'w \<Rightarrow> 'w" where
  "world_after_suite S w =
     snd (after_all S
       (if fst (suite_entered S w) = None
        then world_after_tests S (tests S) (snd (suite_entered S w))
        else snd (suite_entered S w)))"

definition suite_results :: "'w suite \<Rightarrow> 'w \<Rightarrow> (string \<times> string \<times> outcome) list" where
  "suite_results S w =
     (if fst (suite_entered S w) = None
      then tests_results S (tests S) (snd (suite_entered S w))
      else [])"

definition suite_passes :: "'w suite \<Rightarrow> 'w \<Rightarrow> bool" where
  "suite_passes S w \<longleftrightarrow>
     fst (suite_entered S w) = None
     \<and> (\<forall>k<length (tests S).
           fst (snd (tests S ! k) (test_start S k w)) = None
           \<and> fst (after_each S (snd (snd (tests S ! k) (test_start S k w)))) = None)
     \<and> fst (after_all S (world_after_tests S (tests S) (snd (suite_entered S w)))) = None"

text \<open>The world in which suite number \<open>j\<close> of a list starts.\<close>

definition suite_start :: "'w suite list \<Rightarrow> nat \<Rightarrow> 'w \<Rightarrow> 'w" where
  "suite_start Ss j w = foldl (\<lambda>v S. world_after_suite S v) w (take j Ss)"

text \<open>The events of one test and of one suite, as the runner records them.\<close>

definition test_events :: "string \<Rightarrow> string \<Rightarrow> event list" where
  "test_events sn tn = [TestSetup sn tn, TestBody sn tn, TestTeardown sn tn]"

definition suite_events :: "'w suite \<Rightarrow> 'w \<Rightarrow> event list" where
  "suite_events S w =
     [EnterDirectory (suite_name S), SuiteSetup (suite_name S)]
     @ (if fst (suite_entered S w) = None
        then concat (map (\<lambda>t. test_events (suite_name S) (fst t)) (tests S))
        else [])
     @ [SuiteTeardown (suite_name S), LeaveDirectory (suite_name S)]"

section \<open>Example suites\<close>

text \<open>
  The suite of the specification's scenarios, over a world that lists the bodies that
  ran: \<open>test_b\<close> is declared before \<open>test_a\<close>, the body of \<open>test_a\<close> fails unless it runs
  right after \<open>test_b\<close>, and a third test follows.
\<close>

definition example_suite :: "string list suite" where
  "example_suite =
     \<lparr>suite_name = ''Example'', new_instance = (\<lambda>w. []),
      before_all = passing, after_all = passing,
      before_each = (\<lambda>w. w), after_each = passing,
      tests = OrderedClassMembers
         [(''test_b'', \<lambda>w. (None, w @ [''b''])),
          (''test_a'', \<lambda>w. (if w = [''b''] then None else Some AssertionError, w @ [''a''])),
          (''test_c'', \<lambda>w. (None, w @ [''c'']))]\<rparr>"

text \<open>
  A run in which every call returns and every engine-facing method finds what it
  expects: each unmodelled method installs a session whose pending output holds the two
  lines of the mate-in-one scenario.
\<close>

definition example_args :: args where
  "example_args = \<lparr>valgrind = False, valgrind_thread = False, sanitizer_undefined = False,
                   sanitizer_thread = False, none = True, engine_path = ''engine''\<rparr>"

definition example_engine :: engine where
  "example_engine =
     \<lparr>sent = [], output_log = [],
      pending = [''info depth 2 score mate 1 nodes 31 pv d5e6'', ''bestmove d5e6''],
      returncode = None\<rparr>"

definition example_members :: members where
  "example_members c n w = (None, w\<lparr>self := (self w)\<lparr>engine := Some example_engine\<rparr>\<rparr>)"

definition example_world :: world where
  "example_world = \<lparr>self = \<lparr>engine = None, printed = []\<rparr>, tsan_options = False\<rparr>"

definition no_call_raises :: calls where
  "no_call_raises = \<lparr>create_bench_epd = False, set_tsan_option = False,
                     download_syzygy = False, delete_bench_epd = False,
                     unset_tsan_option = False\<rparr>"

section \<open>Properties\<close>

lemma str_in_iff: "str_in s t \<longleftrightarrow> (\<exists>p q. t = p @ s @ q)"
proof (induction t)
  case Nil
  then show ?case by auto
next
  case (Cons c cs)
  show ?case
  proof
    assume "str_in s (c # cs)"
    then consider "take (length s) (c # cs) = s" | "str_in s cs" by auto
    then show "\<exists>p q. c # cs = p @ s @ q"
    proof cases
      case 1
      then have "c # cs = [] @ s @ drop (length s) (c # cs)"
        by (metis append_Nil append_take_drop_id)
      then show ?thesis by blast
    next
      case 2
      then obtain p q where "cs = p @ s @ q" using Cons.IH by blast
      then have "c # cs = (c # p) @ s @ q" by simp
      then show ?thesis by blast
    qed
  next
    assume "\<exists>p q. c # cs = p @ s @ q"
    then obtain p q where pq: "c # cs = p @ s @ q" by blast
    show "str_in s (c # cs)"
    proof (cases p)
      case Nil
      then have "take (length s) (c # cs) = s" using pq by simp
      then show ?thesis by simp
    next
      case (Cons d p')
      then have "cs = p' @ s @ q" using pq by simp
      then have "str_in s cs" using Cons.IH by blast
      then show ?thesis by simp
    qed
  qed
qed

lemma window_take_drop:
  "concat (map (\<lambda>j. if i + j < length xs then [xs ! (i + j)] else []) [0..<m])
   = take m (drop i xs)"
proof (induction m)
  case 0
  then show ?case by simp
next
  case (Suc m)
  show ?case
  proof (cases "i + m < length xs")
    case True
    then have "take (Suc m) (drop i xs) = take m (drop i xs) @ [xs ! (i + m)]"
      by (simp add: take_Suc_conv_app_nth)
    with Suc True show ?thesis by simp
  next
    case False
    then have "take (Suc m) (drop i xs) = take m (drop i xs)" by simp
    with Suc False show ?thesis by simp
  qed
qed

lemma debug_lines_take_drop: "debug_lines out i = take 50 (drop i out)"
  unfolding debug_lines_def by (rule window_take_drop)

lemma take_drop_interval:
  assumes "i < length xs"
  shows "take 50 (drop i xs) = map (\<lambda>k. xs ! k) [i ..< Suc (min (i + 49) (length xs - 1))]"
proof -
  have e: "Suc (min (i + 49) (length xs - 1)) = min (i + 50) (length xs)"
    using assms by auto
  have "drop i xs = drop i (map (\<lambda>k. xs ! k) [0 ..< length xs])"
    by (simp add: map_nth)
  also have "\<dots> = map (\<lambda>k. xs ! k) [i ..< length xs]"
    by (simp add: drop_map)
  finally have "take 50 (drop i xs) = map (\<lambda>k. xs ! k) (take 50 [i ..< length xs])"
    by (simp add: take_map)
  also have "take 50 [i ..< length xs] = [i ..< min (i + 50) (length xs)]"
    by (cases "i + 50 \<le> length xs") (simp_all add: min_def)
  finally show ?thesis using e by simp
qed

lemma scan_lines_None_iff:
  "scan_lines s out idx ls = None \<longleftrightarrow> (\<forall>l\<in>set ls. \<not> str_in s l)"
  by (induction ls arbitrary: idx) auto

lemma scan_lines_first:
  assumes "k < length ls" and "str_in s (ls ! k)" and "\<forall>j<k. \<not> str_in s (ls ! j)"
  shows "scan_lines s out idx ls = Some (debug_lines out (idx + k))"
  using assms
proof (induction ls arbitrary: idx k)
  case Nil
  then show ?case by simp
next
  case (Cons l ls)
  show ?case
  proof (cases k)
    case 0
    with Cons.prems show ?thesis by simp
  next
    case (Suc k')
    with Cons.prems have "\<not> str_in s l" by auto
    moreover have "scan_lines s out (Suc idx) ls = Some (debug_lines out (Suc idx + k'))"
    proof (rule Cons.IH)
      show "k' < length ls" using Cons.prems Suc by simp
      show "str_in s (ls ! k')" using Cons.prems Suc by simp
      show "\<forall>j<k'. \<not> str_in s (ls ! j)" using Cons.prems(3) Suc by auto
    qed
    ultimately show ?thesis using Suc by simp
  qed
qed

subsection \<open>Thread count and launch prefix\<close>

text \<open>
  Claim C4 as stated fails: with only \<open>--sanitizer-undefined\<close> the thread count is 1
  although a sanitizer flag is set, and with only \<open>--valgrind-thread\<close> it is 2 although
  no sanitizer flag is set.
\<close>

theorem get_threads_sanitizer_counterexample:
  "sanitizer_undefined \<lparr>valgrind = False, valgrind_thread = False, sanitizer_undefined = True,
       sanitizer_thread = False, none = False, engine_path = ''engine''\<rparr>
   \<and> get_threads \<lparr>valgrind = False, valgrind_thread = False, sanitizer_undefined = True,
       sanitizer_thread = False, none = False, engine_path = ''engine''\<rparr> = 1
   \<and> \<not> sanitizer_undefined \<lparr>valgrind = False, valgrind_thread = True,
       sanitizer_undefined = False, sanitizer_thread = False, none = False,
       engine_path = ''engine''\<rparr>
   \<and> \<not> sanitizer_thread \<lparr>valgrind = False, valgrind_thread = True,
       sanitizer_undefined = False, sanitizer_thread = False, none = False,
       engine_path = ''engine''\<rparr>
   \<and> get_threads \<lparr>valgrind = False, valgrind_thread = True, sanitizer_undefined = False,
       sanitizer_thread = False, none = False, engine_path = ''engine''\<rparr> = 2"
  by (simp add: get_threads_def)

text \<open>
  Claim C4, amended: the thread count sent to the engine is 2 exactly when one of the two
  thread-checking flags, \<open>--valgrind-thread\<close> or \<open>--sanitizer-thread\<close>, is set, and 1 for
  every other argument configuration.
\<close>

theorem get_threads_thread_modes:
  "(get_threads a = 2 \<longleftrightarrow> valgrind_thread a \<or> sanitizer_thread a)
   \<and> (get_threads a = 1 \<longleftrightarrow> \<not> (valgrind_thread a \<or> sanitizer_thread a))"
  by (simp add: get_threads_def)

text \<open>
  Claim C6 as stated fails: with \<open>--valgrind\<close> and \<open>--valgrind-thread\<close> both set, the
  flag of the valgrind-thread command is set and the prefix is the plain valgrind
  command, which differs from the valgrind-thread command.
\<close>

theorem get_prefix_both_flags_counterexample:
  "valgrind_thread \<lparr>valgrind = True, valgrind_thread = True, sanitizer_undefined = False,
       sanitizer_thread = False, none = False, engine_path = ''engine''\<rparr>
   \<and> get_prefix (Valgrind ''valgrind'' [''--leak-check=full''] [''--fair-sched=try''])
       \<lparr>valgrind = True, valgrind_thread = True, sanitizer_undefined = False,
        sanitizer_thread = False, none = False, engine_path = ''engine''\<rparr>
     = [''valgrind'', ''--leak-check=full'']
   \<and> get_prefix (Valgrind ''valgrind'' [''--leak-check=full''] [''--fair-sched=try''])
       \<lparr>valgrind = True, valgrind_thread = True, sanitizer_undefined = False,
        sanitizer_thread = False, none = False, engine_path = ''engine''\<rparr>
     \<noteq> get_valgrind_thread_command
         (Valgrind ''valgrind'' [''--leak-check=full''] [''--fair-sched=try''])"
  by (simp add: get_prefix_def Valgrind_def checker_invocation_def)

text \<open>
  Claim C6, amended: the launch prefix is a non-empty checker invocation exactly when
  one of the two valgrind flags is set and the empty list otherwise, whatever the
  sanitizer flags and \<open>--none\<close> are; it is the valgrind command when \<open>--valgrind\<close> is
  set, and the valgrind-thread command when \<open>--valgrind-thread\<close> is set and
  \<open>--valgrind\<close> is not.
\<close>

theorem get_prefix_by_flag:
  "(get_prefix (Valgrind program opts thread_opts) a \<noteq> [] \<longleftrightarrow> valgrind a \<or> valgrind_thread a)
   \<and> (valgrind a \<longrightarrow>
        get_prefix (Valgrind program opts thread_opts) a
        = get_valgrind_command (Valgrind program opts thread_opts))
   \<and> (valgrind_thread a \<and> \<not> valgrind a \<longrightarrow>
        get_prefix (Valgrind program opts thread_opts) a
        = get_valgrind_thread_command (Valgrind program opts thread_opts))
   \<and> (\<not> valgrind a \<and> \<not> valgrind_thread a \<longrightarrow>
        get_prefix (Valgrind program opts thread_opts) a = [])"
  by (simp add: get_prefix_def Valgrind_def checker_invocation_def)

theorem get_prefix_by_flag_witness:
  "get_prefix (Valgrind ''valgrind'' [''--leak-check=full''] [''--fair-sched=try''])
     \<lparr>valgrind = False, valgrind_thread = True, sanitizer_undefined = False,
      sanitizer_thread = False, none = False, engine_path = ''engine''\<rparr>
   = get_valgrind_thread_command
       (Valgrind ''valgrind'' [''--leak-check=full''] [''--fair-sched=try''])
   \<and> get_prefix (Valgrind ''valgrind'' [''--leak-check=full''] [''--fair-sched=try''])
     \<lparr>valgrind = True, valgrind_thread = False, sanitizer_undefined = True,
      sanitizer_thread = False, none = False, engine_path = ''engine''\<rparr>
   = get_valgrind_command
       (Valgrind ''valgrind'' [''--leak-check=full''] [''--fair-sched=try''])
   \<and> get_prefix (Valgrind ''valgrind'' [''--leak-check=full''] [''--fair-sched=try''])
     \<lparr>valgrind = False, valgrind_thread = False, sanitizer_undefined = False,
      sanitizer_thread = True, none = False, engine_path = ''engine''\<rparr>
   = []"
  using get_prefix_by_flag
    [of "''valgrind''" "[''--leak-check=full'']" "[''--fair-sched=try'']"
        "\<lparr>valgrind = False, valgrind_thread = True, sanitizer_undefined = False,
          sanitizer_thread = False, none = False, engine_path = ''engine''\<rparr>"]
    get_prefix_by_flag
    [of "''valgrind''" "[''--leak-check=full'']" "[''--fair-sched=try'']"
        "\<lparr>valgrind = True, valgrind_thread = False, sanitizer_undefined = True,
          sanitizer_thread = False, none = False, engine_path = ''engine''\<rparr>"]
    get_prefix_by_flag
    [of "''valgrind''" "[''--leak-check=full'']" "[''--fair-sched=try'']"
        "\<lparr>valgrind = False, valgrind_thread = False, sanitizer_undefined = False,
          sanitizer_thread = True, none = False, engine_path = ''engine''\<rparr>"]
  by simp

text \<open>
  Claim C10: the parser accepts \<open>--valgrind\<close> together with \<open>--valgrind-thread\<close> and sets
  both flags; for every configuration with both flags set the prefix is the plain
  valgrind command, never a different valgrind-thread command, while the thread count
  is 2.
\<close>

theorem both_valgrind_flags:
  assumes "take 1 p \<noteq> ''-''"
  shows "(\<exists>a. parse_args [''--valgrind'', ''--valgrind-thread'', p] = Parsed a
              \<and> valgrind a \<and> valgrind_thread a)
         \<and> (\<forall>a. valgrind a \<and> valgrind_thread a \<longrightarrow>
                get_prefix V a = get_valgrind_command V \<and> get_threads a = 2
                \<and> (get_valgrind_thread_command V \<noteq> get_valgrind_command V
                     \<longrightarrow> get_prefix V a \<noteq> get_valgrind_thread_command V))"
proof -
  have "p \<noteq> ''--valgrind''" "p \<noteq> ''--valgrind-thread''" "p \<noteq> ''--sanitizer-undefined''"
       "p \<noteq> ''--sanitizer-thread''" "p \<noteq> ''--none''"
    using assms by auto
  then have "parse_args [''--valgrind'', ''--valgrind-thread'', p]
             = Parsed (no_flags\<lparr>valgrind := True, valgrind_thread := True, engine_path := p\<rparr>)"
    using assms by (simp add: parse_args_def)
  then show ?thesis by (simp add: get_prefix_def get_threads_def)
qed

theorem both_valgrind_flags_witness:
  "parse_args [''--valgrind'', ''--valgrind-thread'', ''./engine'']
     = Parsed \<lparr>valgrind = True, valgrind_thread = True, sanitizer_undefined = False,
               sanitizer_thread = False, none = False, engine_path = ''./engine''\<rparr>
   \<and> get_prefix \<lparr>get_valgrind_command = [''valgrind'', ''--leak-check=full''],
                 get_valgrind_thread_command = [''valgrind'', ''--fair-sched=try'']\<rparr>
        \<lparr>valgrind = True, valgrind_thread = True, sanitizer_undefined = False,
         sanitizer_thread = False, none = False, engine_path = ''./engine''\<rparr>
      = [''valgrind'', ''--leak-check=full'']
   \<and> get_threads \<lparr>valgrind = True, valgrind_thread = True, sanitizer_undefined = False,
         sanitizer_thread = False, none = False, engine_path = ''./engine''\<rparr> = 2"
proof -
  have h: "take 1 ''./engine'' \<noteq> ''-''" by simp
  have p: "parse_args [''--valgrind'', ''--valgrind-thread'', ''./engine'']
     = Parsed \<lparr>valgrind = True, valgrind_thread = True, sanitizer_undefined = False,
               sanitizer_thread = False, none = False, engine_path = ''./engine''\<rparr>"
    by (simp add: parse_args_def no_flags_def)
  from both_valgrind_flags [OF h,
      of "\<lparr>get_valgrind_command = [''valgrind'', ''--leak-check=full''],
           get_valgrind_thread_command = [''valgrind'', ''--fair-sched=try'']\<rparr>"]
  have "get_prefix \<lparr>get_valgrind_command = [''valgrind'', ''--leak-check=full''],
                 get_valgrind_thread_command = [''valgrind'', ''--fair-sched=try'']\<rparr>
        \<lparr>valgrind = True, valgrind_thread = True, sanitizer_undefined = False,
         sanitizer_thread = False, none = False, engine_path = ''./engine''\<rparr>
      = [''valgrind'', ''--leak-check=full'']
   \<and> get_threads \<lparr>valgrind = True, valgrind_thread = True, sanitizer_undefined = False,
         sanitizer_thread = False, none = False, engine_path = ''./engine''\<rparr> = 2"
    by simp
  with p show ?thesis by simp
qed

subsection \<open>The sanitizer check of the captured output\<close>

text \<open>
  Claim C1: \<open>postfix_check\<close> returns \<open>False\<close> exactly when an active sanitizer mode's
  sentinel (\<open>runtime error:\<close> under \<open>--sanitizer-undefined\<close>,
  \<open>WARNING: ThreadSanitizer:\<close> under \<open>--sanitizer-thread\<close>) occurs inside some captured
  line, and \<open>True\<close> in every other case; the teardown \<open>afterEach\<close> raises its
  \<open>AssertionError\<close> under exactly the same condition on the log of the engine, whatever
  the exit code of the process was.
\<close>

theorem postfix_check_fails_iff_sentinel:
  "(snd (postfix_check a out) = False \<longleftrightarrow>
      (sanitizer_undefined a \<and> (\<exists>line\<in>set out. \<exists>p q. line = p @ ''runtime error:'' @ q))
      \<or> (sanitizer_thread a
          \<and> (\<exists>line\<in>set out. \<exists>p q. line = p @ ''WARNING: ThreadSanitizer:'' @ q)))
   \<and> (fst (afterEach a (s\<lparr>engine := Some (e\<lparr>returncode := rc\<rparr>)\<rparr>)) = Some AssertionError \<longleftrightarrow>
      (sanitizer_undefined a
        \<and> (\<exists>line\<in>set (output_log e). \<exists>p q. line = p @ ''runtime error:'' @ q))
      \<or> (sanitizer_thread a
          \<and> (\<exists>line\<in>set (output_log e). \<exists>p q. line = p @ ''WARNING: ThreadSanitizer:'' @ q)))"
proof -
  have pc: "snd (postfix_check a xs) = False \<longleftrightarrow>
      (sanitizer_undefined a \<and> (\<exists>line\<in>set xs. \<exists>p q. line = p @ ''runtime error:'' @ q))
      \<or> (sanitizer_thread a
          \<and> (\<exists>line\<in>set xs. \<exists>p q. line = p @ ''WARNING: ThreadSanitizer:'' @ q))" for xs
  proof -
    have u: "(scan_lines ''runtime error:'' xs 0 xs = None) \<longleftrightarrow>
             \<not> (\<exists>line\<in>set xs. \<exists>p q. line = p @ ''runtime error:'' @ q)"
      by (simp only: scan_lines_None_iff str_in_iff) blast
    have t: "(scan_lines ''WARNING: ThreadSanitizer:'' xs 0 xs = None) \<longleftrightarrow>
             \<not> (\<exists>line\<in>set xs. \<exists>p q. line = p @ ''WARNING: ThreadSanitizer:'' @ q)"
      by (simp only: scan_lines_None_iff str_in_iff) blast
    show ?thesis
      unfolding postfix_check_def using u t
      by (cases "scan_lines ''runtime error:'' xs 0 xs";
          cases "scan_lines ''WARNING: ThreadSanitizer:'' xs 0 xs") auto
  qed
  have "fst (afterEach a (s\<lparr>engine := Some (e\<lparr>returncode := rc\<rparr>)\<rparr>)) = Some AssertionError
        \<longleftrightarrow> snd (postfix_check a (output_log e)) = False"
    by (simp add: afterEach_def get_output_def split: prod.splits)
  with pc [of out] pc [of "output_log e"] show ?thesis by simp
qed

text \<open>
  Claim C5 as stated fails: with the sentinel in line 0 of 52 lines the window of the
  claim, lines 0 through \<open>min (0 + 50) 51\<close>, has 51 lines, while the loop over
  \<open>range(50)\<close> prints 50 of them.
\<close>

theorem postfix_check_context_counterexample:
  "postfix_check
     \<lparr>valgrind = False, valgrind_thread = False, sanitizer_undefined = True,
      sanitizer_thread = False, none = False, engine_path = ''engine''\<rparr>
     (''runtime error: x'' # replicate 51 ''ok'')
   = (''runtime error: x'' # replicate 49 ''ok'', False)
   \<and> fst (postfix_check
     \<lparr>valgrind = False, valgrind_thread = False, sanitizer_undefined = True,
      sanitizer_thread = False, none = False, engine_path = ''engine''\<rparr>
     (''runtime error: x'' # replicate 51 ''ok''))
   \<noteq> map (\<lambda>k. (''runtime error: x'' # replicate 51 ''ok'') ! k)
         [0 ..< Suc (min (0 + 50) (length (''runtime error: x'' # replicate 51 ''ok'') - 1))]"
proof -
  let ?a = "\<lparr>valgrind = False, valgrind_thread = False, sanitizer_undefined = True,
      sanitizer_thread = False, none = False, engine_path = ''engine''\<rparr>"
  let ?out = "''runtime error: x'' # replicate 51 ''ok''"
  have printed: "postfix_check ?a ?out = (''runtime error: x'' # replicate 49 ''ok'', False)"
    by (simp add: postfix_check_def debug_lines_take_drop)
  have "fst (postfix_check ?a ?out)
        \<noteq> map (\<lambda>k. ?out ! k) [0 ..< Suc (min (0 + 50) (length ?out - 1))]"
  proof
    assume "fst (postfix_check ?a ?out)
            = map (\<lambda>k. ?out ! k) [0 ..< Suc (min (0 + 50) (length ?out - 1))]"
    then have "length (fst (postfix_check ?a ?out))
               = length (map (\<lambda>k. ?out ! k) [0 ..< Suc (min (0 + 50) (length ?out - 1))])"
      by (rule arg_cong)
    then show False using printed by simp
  qed
  with printed show ?thesis by simp
qed

text \<open>
  Claim C5, amended: when the sentinel of an active mode first occurs in the line at
  index \<open>i\<close> of an \<open>n\<close>-line list (and, for the thread sentinel, the undefined-behaviour
  scan is off or finds nothing), \<open>postfix_check\<close> prints the lines \<open>i\<close> through
  \<open>min (i + 49) (n - 1)\<close>, that is the matching line and up to the next 49 lines, and
  returns \<open>False\<close> without looking at later occurrences.
\<close>

theorem postfix_check_context:
  assumes "i < length out"
    and "\<exists>p q. out ! i = p @ S @ q"
    and "\<forall>j<i. \<not> (\<exists>p q. out ! j = p @ S @ q)"
    and "(S = ''runtime error:'' \<and> sanitizer_undefined a)
         \<or> (S = ''WARNING: ThreadSanitizer:'' \<and> sanitizer_thread a
             \<and> (sanitizer_undefined a \<longrightarrow>
                  (\<forall>l\<in>set out. \<not> (\<exists>p q. l = p @ ''runtime error:'' @ q))))"
  shows "postfix_check a out
         = (map (\<lambda>k. out ! k) [i ..< Suc (min (i + 49) (length out - 1))], False)"
proof -
  have "scan_lines S out 0 out = Some (debug_lines out (0 + i))"
    using assms(1-3) by (intro scan_lines_first) (simp_all add: str_in_iff)
  then have found: "scan_lines S out 0 out
                    = Some (map (\<lambda>k. out ! k) [i ..< Suc (min (i + 49) (length out - 1))])"
    using assms(1) by (simp add: debug_lines_take_drop take_drop_interval)
  from assms(4) show ?thesis
  proof
    assume "S = ''runtime error:'' \<and> sanitizer_undefined a"
    with found show ?thesis by (simp add: postfix_check_def)
  next
    assume t: "S = ''WARNING: ThreadSanitizer:'' \<and> sanitizer_thread a
             \<and> (sanitizer_undefined a \<longrightarrow>
                  (\<forall>l\<in>set out. \<not> (\<exists>p q. l = p @ ''runtime error:'' @ q)))"
    then have "sanitizer_undefined a \<Longrightarrow> scan_lines ''runtime error:'' out 0 out = None"
      by (simp add: scan_lines_None_iff str_in_iff)
    with t found show ?thesis by (simp add: postfix_check_def)
  qed
qed

theorem postfix_check_context_witness:
  "postfix_check
     \<lparr>valgrind = False, valgrind_thread = False, sanitizer_undefined = True,
      sanitizer_thread = True, none = False, engine_path = ''engine''\<rparr>
     [''info depth 1'', ''WARNING: ThreadSanitizer: data race'', ''  Write of size 8'',
      ''bestmove e2e4'']
   = ([''WARNING: ThreadSanitizer: data race'', ''  Write of size 8'', ''bestmove e2e4''],
      False)"
proof -
  let ?out = "[''info depth 1'', ''WARNING: ThreadSanitizer: data race'', ''  Write of size 8'',
      ''bestmove e2e4'']"
  let ?a = "\<lparr>valgrind = False, valgrind_thread = False, sanitizer_undefined = True,
      sanitizer_thread = True, none = False, engine_path = ''engine''\<rparr>"
  have 1: "1 < length ?out" by simp
  have 2: "\<exists>p q. ?out ! 1 = p @ ''WARNING: ThreadSanitizer:'' @ q"
    unfolding str_in_iff [symmetric] by simp
  have 3: "\<forall>j<1. \<not> (\<exists>p q. ?out ! j = p @ ''WARNING: ThreadSanitizer:'' @ q)"
    unfolding str_in_iff [symmetric] by simp
  have 4: "(''WARNING: ThreadSanitizer:'' = ''runtime error:'' \<and> sanitizer_undefined ?a)
         \<or> (''WARNING: ThreadSanitizer:'' = ''WARNING: ThreadSanitizer:'' \<and> sanitizer_thread ?a
             \<and> (sanitizer_undefined ?a \<longrightarrow>
                  (\<forall>l\<in>set ?out. \<not> (\<exists>p q. l = p @ ''runtime error:'' @ q))))"
    unfolding str_in_iff [symmetric] by simp
  from postfix_check_context [OF 1 2 3 4] show ?thesis by (simp add: upt_rec)
qed

subsection \<open>The mate-in-one scenario of the interactive suite\<close>

lemma wait_for_None_iff: "wait_for P ls = None \<longleftrightarrow> (\<forall>l\<in>set ls. \<not> P l)"
  by (induction ls) (auto split: option.splits)

lemma wait_for_Some:
  "wait_for P ls = Some (c, r) \<Longrightarrow>
     \<exists>k<length ls. P (ls ! k) \<and> (\<forall>j<k. \<not> P (ls ! j)) \<and> c = take (Suc k) ls \<and> r = drop (Suc k) ls"
proof (induction ls arbitrary: c r)
  case Nil
  then show ?case by simp
next
  case (Cons l ls)
  show ?case
  proof (cases "P l")
    case True
    with Cons.prems have "c = [l]" "r = ls" by auto
    with True show ?thesis by (intro exI [of _ 0]) simp
  next
    case False
    with Cons.prems obtain c' where w: "wait_for P ls = Some (c', r)" and c: "c = l # c'"
      by (auto split: option.splits)
    from Cons.IH [OF w] obtain k where k: "k < length ls" "P (ls ! k)"
      "\<forall>j<k. \<not> P (ls ! j)" "c' = take (Suc k) ls" "r = drop (Suc k) ls"
      by blast
    have "\<forall>j<Suc k. \<not> P ((l # ls) ! j)"
      using False k(3) by (auto simp: nth_Cons')
    with k c show ?thesis by (intro exI [of _ "Suc k"]) simp
  qed
qed

lemma two_waits:
  "(\<exists>c r. wait_for P ls = Some (c, r) \<and> wait_for Q r \<noteq> None)
   \<longleftrightarrow> (\<exists>i j. i < j \<and> j < length ls \<and> P (ls ! i) \<and> Q (ls ! j))"
proof
  assume "\<exists>c r. wait_for P ls = Some (c, r) \<and> wait_for Q r \<noteq> None"
  then obtain c r where w: "wait_for P ls = Some (c, r)" and q: "wait_for Q r \<noteq> None"
    by blast
  from wait_for_Some [OF w] obtain k where k: "k < length ls" "P (ls ! k)"
    "r = drop (Suc k) ls" by blast
  from q obtain l where "l \<in> set r" "Q l" by (auto simp: wait_for_None_iff)
  then obtain m where m: "m < length r" "r ! m = l" by (auto simp: in_set_conv_nth)
  then have "Suc k + m < length ls" "ls ! (Suc k + m) = l" using k by auto
  with k \<open>Q l\<close> show "\<exists>i j. i < j \<and> j < length ls \<and> P (ls ! i) \<and> Q (ls ! j)"
    by (intro exI [of _ k] exI [of _ "Suc k + m"]) simp
next
  assume "\<exists>i j. i < j \<and> j < length ls \<and> P (ls ! i) \<and> Q (ls ! j)"
  then obtain i j where ij: "i < j" "j < length ls" "P (ls ! i)" "Q (ls ! j)" by blast
  then have "ls ! i \<in> set ls" by simp
  with ij(3) have "wait_for P ls \<noteq> None" by (auto simp: wait_for_None_iff)
  then obtain c r where w: "wait_for P ls = Some (c, r)" by auto
  from wait_for_Some [OF w] obtain k where k: "k < length ls" "P (ls ! k)"
    "\<forall>j<k. \<not> P (ls ! j)" "r = drop (Suc k) ls" by blast
  have "k \<le> i" using k(3) ij(3) by (meson not_le_imp_less)
  then have "j - Suc k < length r" "r ! (j - Suc k) = ls ! j" using ij k by auto
  then have "ls ! j \<in> set r" by (metis nth_mem)
  with ij(4) have "wait_for Q r \<noteq> None" by (auto simp: wait_for_None_iff)
  with w show "\<exists>c r. wait_for P ls = Some (c, r) \<and> wait_for Q r \<noteq> None" by blast
qed

lemma glob_star: "glob_match (CHR ''*'' # ps) s \<longleftrightarrow> (\<exists>a b. s = a @ b \<and> glob_match ps b)"
proof (induction s)
  case Nil
  then show ?case by simp
next
  case (Cons c cs)
  have "(\<exists>a b. c # cs = a @ b \<and> glob_match ps b)
        \<longleftrightarrow> glob_match ps (c # cs) \<or> (\<exists>a b. cs = a @ b \<and> glob_match ps b)"
    by (auto simp: Cons_eq_append_conv)
  with Cons show ?case by simp
qed

lemma glob_literal:
  "CHR ''*'' \<notin> set lit \<Longrightarrow> glob_match (lit @ ps) s \<longleftrightarrow> (\<exists>r. s = lit @ r \<and> glob_match ps r)"
proof (induction lit arbitrary: s)
  case Nil
  then show ?case by simp
next
  case (Cons x lit)
  then show ?case by (cases s) auto
qed

lemma glob_mate_1:
  "glob_match ''* score mate 1 * pv d5e6'' l
   \<longleftrightarrow> (\<exists>a b. l = a @ '' score mate 1 '' @ b @ '' pv d5e6'')"
proof -
  have "glob_match ''* score mate 1 * pv d5e6'' l
        \<longleftrightarrow> (\<exists>a b. l = a @ b \<and> glob_match ('' score mate 1 '' @ (CHR ''*'' # '' pv d5e6'' @ [])) b)"
    using glob_star [of "'' score mate 1 * pv d5e6''" l] by simp
  also have "\<dots> \<longleftrightarrow> (\<exists>a r. l = a @ '' score mate 1 '' @ r \<and> glob_match (CHR ''*'' # '' pv d5e6'' @ []) r)"
    by (subst glob_literal) auto
  also have "\<dots> \<longleftrightarrow> (\<exists>a b c. l = a @ '' score mate 1 '' @ b @ c \<and> glob_match ('' pv d5e6'' @ []) c)"
    by (subst glob_star) auto
  also have "\<dots> \<longleftrightarrow> (\<exists>a b. l = a @ '' score mate 1 '' @ b @ '' pv d5e6'')"
    by (subst glob_literal) auto
  finally show ?thesis .
qed

lemma await_sent: "sent (snd (await P e)) = sent e"
  by (simp add: await_def split: option.splits prod.splits)

lemma await_pass_iff: "fst (await P e) = None \<longleftrightarrow> wait_for P (pending e) \<noteq> None"
  by (simp add: await_def split: option.splits prod.splits)

lemma await_pending:
  "wait_for P (pending e) = Some (c, r) \<Longrightarrow> pending (snd (await P e)) = r"
  by (simp add: await_def)

lemma str_1: "str (Suc 0) = ''1''"
  by (simp add: str.simps digit_def)

lemma str_2: "str 2 = ''2''"
  by (simp add: str.simps digit_def)

subsection \<open>What the runner does\<close>

lemma record_event_fields [simp]:
  "trace (record_event ev fw) = trace fw @ [ev]"
  "results (record_event ev fw) = results fw"
  "suite_errors (record_event ev fw) = suite_errors fw"
  "failed (record_event ev fw) = failed fw"
  by (simp_all add: record_event_def)

lemma record_outcome_fields [simp]:
  "trace (record_outcome sn tn oc fw) = trace fw"
  "results (record_outcome sn tn oc fw) = results fw @ [(sn, tn, oc)]"
  "suite_errors (record_outcome sn tn oc fw) = suite_errors fw"
  "failed (record_outcome sn tn oc fw) = (failed fw \<or> oc \<noteq> Passed)"
  by (simp_all add: record_outcome_def)

lemma record_suite_error_fields [simp]:
  "trace (record_suite_error sn r fw) = trace fw"
  "results (record_suite_error sn r fw) = results fw"
  "suite_errors (record_suite_error sn r fw)
     = suite_errors fw @ (case r of None \<Rightarrow> [] | Some x \<Rightarrow> [(sn, x)])"
  "failed (record_suite_error sn r fw) = (failed fw \<or> r \<noteq> None)"
  by (simp_all add: record_suite_error_def split: option.splits)

lemma outcome_of_not_Passed [simp]: "outcome_of x \<noteq> Passed"
  by (simp add: outcome_of_def)

lemma OrderedClassMembers_keeps_order: "OrderedClassMembers ds = ds"
proof -
  have "foldl register reg ds = reg @ ds" for reg :: "(string \<times> 'a) list"
    by (induction ds arbitrary: reg) (simp_all add: register_def)
  then show ?thesis by (simp add: OrderedClassMembers_def)
qed

text \<open>One test, as the runner runs it.\<close>

lemma run_test_unfold:
  "run_test S t (fw, w) =
     (record_outcome (suite_name S) (fst t) (test_outcome S t w)
        (record_event (TestTeardown (suite_name S) (fst t))
          (record_event (TestBody (suite_name S) (fst t))
            (record_event (TestSetup (suite_name S) (fst t)) fw))),
      test_step S t w)"
  by (cases t)
    (simp add: run_test_def Let_def case_prod_beta test_outcome_def test_step_def
      split: option.splits)

lemma test_outcome_Passed_iff:
  "test_outcome S t w = Passed \<longleftrightarrow>
     fst (snd t (before_each S w)) = None
     \<and> fst (after_each S (snd (snd t (before_each S w)))) = None"
  by (simp add: test_outcome_def split: option.splits)

lemma world_after_tests_simps [simp]:
  "world_after_tests S [] w = w"
  "world_after_tests S (t # ts) w = world_after_tests S ts (test_step S t w)"
  by (simp_all add: world_after_tests_def)

lemma world_after_tests_snoc:
  "world_after_tests S (ts @ [t]) w = test_step S t (world_after_tests S ts w)"
  by (simp add: world_after_tests_def)

lemma tests_results_Nil [simp]: "tests_results S [] w = []"
  by (simp add: tests_results_def)

lemma tests_results_Cons:
  "tests_results S (t # ts) w
   = (suite_name S, fst t, test_outcome S t w) # tests_results S ts (test_step S t w)"
proof -
  have "map (\<lambda>k. (suite_name S, fst ((t # ts) ! k),
               test_outcome S ((t # ts) ! k) (world_after_tests S (take k (t # ts)) w)))
          [0 ..< Suc (length ts)]
        = (suite_name S, fst t, test_outcome S t w)
          # map (\<lambda>k. (suite_name S, fst (ts ! k),
               test_outcome S (ts ! k) (world_after_tests S (take k ts) (test_step S t w))))
              [0 ..< length ts]"
    by (simp add: map_upt_Suc del: upt_Suc)
  then show ?thesis by (simp add: tests_results_def del: upt_Suc)
qed

lemma run_tests_world: "snd (run_tests S ts (fw, w)) = world_after_tests S ts w"
  by (induction ts arbitrary: fw w) (simp_all add: run_test_unfold)

lemma run_tests_trace:
  "trace (fst (run_tests S ts (fw, w)))
   = trace fw @ concat (map (\<lambda>t. test_events (suite_name S) (fst t)) ts)"
  by (induction ts arbitrary: fw w) (simp_all add: run_test_unfold test_events_def)

lemma run_tests_results:
  "results (fst (run_tests S ts (fw, w))) = results fw @ tests_results S ts w"
  by (induction ts arbitrary: fw w) (simp_all add: run_test_unfold tests_results_Cons)

lemma run_tests_suite_errors:
  "suite_errors (fst (run_tests S ts (fw, w))) = suite_errors fw"
  by (induction ts arbitrary: fw w) (simp_all add: run_test_unfold)

lemma run_tests_failed:
  "failed (fst (run_tests S ts (fw, w)))
   \<longleftrightarrow> failed fw \<or> (\<exists>r\<in>set (tests_results S ts w). snd (snd r) \<noteq> Passed)"
  by (induction ts arbitrary: fw w) (auto simp: run_test_unfold tests_results_Cons)

lemma tests_results_all_Passed:
  "(\<forall>r\<in>set (tests_results S ts w). snd (snd r) = Passed)
   \<longleftrightarrow> (\<forall>k<length ts. test_outcome S (ts ! k) (world_after_tests S (take k ts) w) = Passed)"
  by (auto simp: tests_results_def)

lemma suite_passes_iff:
  "suite_passes S w \<longleftrightarrow>
     fst (suite_entered S w) = None
     \<and> (\<forall>r\<in>set (tests_results S (tests S) (snd (suite_entered S w))). snd (snd r) = Passed)
     \<and> fst (after_all S (world_after_tests S (tests S) (snd (suite_entered S w)))) = None"
  unfolding suite_passes_def tests_results_all_Passed test_outcome_Passed_iff test_start_def
  by simp

lemma run_suite_world: "snd (run_suite S (fw, w)) = world_after_suite S w"
  by (simp add: run_suite_def Let_def case_prod_beta world_after_suite_def suite_entered_def
      run_tests_world)

lemma run_suite_trace: "trace (fst (run_suite S (fw, w))) = trace fw @ suite_events S w"
  by (simp add: run_suite_def Let_def case_prod_beta suite_events_def suite_entered_def
      run_tests_trace)

lemma run_suite_results:
  "results (fst (run_suite S (fw, w))) = results fw @ suite_results S w"
  by (simp add: run_suite_def Let_def case_prod_beta suite_results_def suite_entered_def
      run_tests_results)

lemma run_suite_failed:
  "failed (fst (run_suite S (fw, w))) \<longleftrightarrow> failed fw \<or> \<not> suite_passes S w"
  by (auto simp: run_suite_def Let_def case_prod_beta suite_passes_iff suite_entered_def
      run_tests_failed run_tests_world)

lemma suite_start_simps [simp]:
  "suite_start Ss 0 w = w"
  "suite_start (S # Ss) (Suc j) w = suite_start Ss j (world_after_suite S w)"
  by (simp_all add: suite_start_def)

lemma run_world: "snd (run Ss (fw, w)) = suite_start Ss (length Ss) w"
proof (induction Ss arbitrary: fw w)
  case Nil
  then show ?case by simp
next
  case (Cons S Ss)
  have e: "run_suite S (fw, w) = (fst (run_suite S (fw, w)), world_after_suite S w)"
    by (metis prod.collapse run_suite_world)
  show ?case
    using Cons.IH [of "fst (run_suite S (fw, w))" "world_after_suite S w"]
    by (simp add: e [symmetric])
qed

lemma run_trace:
  "trace (fst (run Ss (fw, w)))
   = trace fw @ concat (map (\<lambda>j. suite_events (Ss ! j) (suite_start Ss j w)) [0 ..< length Ss])"
proof (induction Ss arbitrary: fw w)
  case Nil
  then show ?case by simp
next
  case (Cons S Ss)
  have e: "run_suite S (fw, w) = (fst (run_suite S (fw, w)), world_after_suite S w)"
    by (metis prod.collapse run_suite_world)
  have "trace (fst (run (S # Ss) (fw, w)))
        = trace (fst (run_suite S (fw, w)))
          @ concat (map (\<lambda>j. suite_events (Ss ! j) (suite_start Ss j (world_after_suite S w)))
                        [0 ..< length Ss])"
    using Cons.IH [of "fst (run_suite S (fw, w))" "world_after_suite S w"]
    by (simp add: e [symmetric])
  then show ?case by (simp add: run_suite_trace map_upt_Suc del: upt_Suc)
qed

lemma run_results:
  "results (fst (run Ss (fw, w)))
   = results fw
     @ concat (map (\<lambda>j. suite_results (Ss ! j) (suite_start Ss j w)) [0 ..< length Ss])"
proof (induction Ss arbitrary: fw w)
  case Nil
  then show ?case by simp
next
  case (Cons S Ss)
  have e: "run_suite S (fw, w) = (fst (run_suite S (fw, w)), world_after_suite S w)"
    by (metis prod.collapse run_suite_world)
  have "results (fst (run (S # Ss) (fw, w)))
        = results (fst (run_suite S (fw, w)))
          @ concat (map (\<lambda>j. suite_results (Ss ! j) (suite_start Ss j (world_after_suite S w)))
                        [0 ..< length Ss])"
    using Cons.IH [of "fst (run_suite S (fw, w))" "world_after_suite S w"]
    by (simp add: e [symmetric])
  then show ?case by (simp add: run_suite_results map_upt_Suc del: upt_Suc)
qed

lemma run_failed:
  "failed (fst (run Ss (fw, w)))
   \<longleftrightarrow> failed fw \<or> (\<exists>j<length Ss. \<not> suite_passes (Ss ! j) (suite_start Ss j w))"
proof (induction Ss arbitrary: fw w)
  case Nil
  then show ?case by simp
next
  case (Cons S Ss)
  have e: "run_suite S (fw, w) = (fst (run_suite S (fw, w)), world_after_suite S w)"
    by (metis prod.collapse run_suite_world)
  have "failed (fst (run (S # Ss) (fw, w)))
        \<longleftrightarrow> failed (fst (run_suite S (fw, w)))
            \<or> (\<exists>j<length Ss. \<not> suite_passes (Ss ! j) (suite_start Ss j (world_after_suite S w)))"
    using Cons.IH [of "fst (run_suite S (fw, w))" "world_after_suite S w"]
    by (simp add: e [symmetric])
  also have "\<dots> \<longleftrightarrow> failed fw
       \<or> (\<exists>j<length (S # Ss). \<not> suite_passes ((S # Ss) ! j) (suite_start (S # Ss) j w))"
    by (auto simp: run_suite_failed less_Suc_eq_0_disj)
  finally show ?case .
qed

lemma executed_append: "executed (xs @ ys) = executed xs @ executed ys"
  by (induction xs rule: executed.induct) simp_all

lemma executed_tests:
  "executed (concat (map (\<lambda>t. test_events sn (fst t)) ts)) = map (\<lambda>t. (sn, fst t)) ts"
  by (induction ts) (simp_all add: test_events_def)

lemma executed_suite:
  "executed (suite_events S w)
   = (if fst (suite_entered S w) = None
      then map (\<lambda>t. (suite_name S, fst t)) (tests S) else [])"
  by (simp add: suite_events_def executed_append executed_tests)

lemma executed_concat: "executed (concat xss) = concat (map executed xss)"
  by (induction xss) (simp_all add: executed_append)

lemma main_unfold:
  "main C a B w =
     (if create_bench_epd C then (record_event CreateBenchEpd new_framework, w, 1)
      else if set_tsan_option C
        then (record_event SetTsanOption (record_event CreateBenchEpd new_framework), w, 1)
      else if download_syzygy C
        then (record_event DownloadSyzygy
                (record_event SetTsanOption (record_event CreateBenchEpd new_framework)),
              w\<lparr>tsan_options := True\<rparr>, 1)
      else if delete_bench_epd C
        then (record_event DeleteBenchEpd
                (fst (run (suite_classes a B)
                   (record_event DownloadSyzygy
                      (record_event SetTsanOption (record_event CreateBenchEpd new_framework)),
                    w\<lparr>tsan_options := True\<rparr>))),
              suite_start (suite_classes a B) (length (suite_classes a B))
                (w\<lparr>tsan_options := True\<rparr>), 1)
      else if unset_tsan_option C
        then (record_event UnsetTsanOption (record_event DeleteBenchEpd
                (fst (run (suite_classes a B)
                   (record_event DownloadSyzygy
                      (record_event SetTsanOption (record_event CreateBenchEpd new_framework)),
                    w\<lparr>tsan_options := True\<rparr>)))),
              suite_start (suite_classes a B) (length (suite_classes a B))
                (w\<lparr>tsan_options := True\<rparr>), 1)
      else (record_event UnsetTsanOption (record_event DeleteBenchEpd
                (fst (run (suite_classes a B)
                   (record_event DownloadSyzygy
                      (record_event SetTsanOption (record_event CreateBenchEpd new_framework)),
                    w\<lparr>tsan_options := True\<rparr>)))),
            (suite_start (suite_classes a B) (length (suite_classes a B))
                (w\<lparr>tsan_options := True\<rparr>))\<lparr>tsan_options := False\<rparr>,
            if failed (fst (run (suite_classes a B)
                   (record_event DownloadSyzygy
                      (record_event SetTsanOption (record_event CreateBenchEpd new_framework)),
                    w\<lparr>tsan_options := True\<rparr>))) then 1 else 0))"
  by (simp add: main_def Let_def case_prod_beta has_failed_def run_world)

lemma main_trace:
  "trace (fst (main C a B w)) =
     (if create_bench_epd C then [CreateBenchEpd]
      else if set_tsan_option C then [CreateBenchEpd, SetTsanOption]
      else if download_syzygy C then [CreateBenchEpd, SetTsanOption, DownloadSyzygy]
      else [CreateBenchEpd, SetTsanOption, DownloadSyzygy]
           @ concat (map (\<lambda>j. suite_events (suite_classes a B ! j)
                                (suite_start (suite_classes a B) j (w\<lparr>tsan_options := True\<rparr>)))
                         [0 ..< length (suite_classes a B)])
           @ (if delete_bench_epd C then [DeleteBenchEpd]
              else [DeleteBenchEpd, UnsetTsanOption]))"
  by (simp add: main_unfold run_trace new_framework_def)

lemma main_results:
  "results (fst (main C a B w)) =
     (if create_bench_epd C \<or> set_tsan_option C \<or> download_syzygy C then []
      else concat (map (\<lambda>j. suite_results (suite_classes a B ! j)
                              (suite_start (suite_classes a B) j (w\<lparr>tsan_options := True\<rparr>)))
                       [0 ..< length (suite_classes a B)]))"
  by (simp add: main_unfold run_results new_framework_def)

lemma main_exit_code:
  "snd (snd (main C a B w)) =
     (if create_bench_epd C \<or> set_tsan_option C \<or> download_syzygy C
         \<or> delete_bench_epd C \<or> unset_tsan_option C then 1
      else if \<forall>j<length (suite_classes a B).
                suite_passes (suite_classes a B ! j)
                  (suite_start (suite_classes a B) j (w\<lparr>tsan_options := True\<rparr>))
        then 0 else 1)"
  by (auto simp: main_unfold run_failed new_framework_def)

subsection \<open>The suite classes\<close>

lemma TestCLI_fields [simp]:
  "suite_name (TestCLI a B) = ''TestCLI''"
  "new_instance (TestCLI a B) = fresh_instance"
  "before_all (TestCLI a B) = passing"
  "after_all (TestCLI a B) = passing"
  "before_each (TestCLI a B) = (\<lambda>w. w\<lparr>self := beforeEach (self w)\<rparr>)"
  "after_each (TestCLI a B) = on_self (afterEach a)"
  by (simp_all add: TestCLI_def)

lemma TestInteractive_fields [simp]:
  "suite_name (TestInteractive a B) = ''TestInteractive''"
  "new_instance (TestInteractive a B) = fresh_instance"
  "before_all (TestInteractive a B) = B ''TestInteractive'' ''beforeAll''"
  "after_all (TestInteractive a B) = B ''TestInteractive'' ''afterAll''"
  "before_each (TestInteractive a B) = (\<lambda>w. w)"
  "after_each (TestInteractive a B) = on_self (afterEach a)"
  by (simp_all add: TestInteractive_def)

lemma TestSyzygy_fields [simp]:
  "suite_name (TestSyzygy a B) = ''TestSyzygy''"
  "new_instance (TestSyzygy a B) = fresh_instance"
  "before_all (TestSyzygy a B) = B ''TestSyzygy'' ''beforeAll''"
  "after_all (TestSyzygy a B) = B ''TestSyzygy'' ''afterAll''"
  "before_each (TestSyzygy a B) = (\<lambda>w. w)"
  "after_each (TestSyzygy a B) = on_self (afterEach a)"
  by (simp_all add: TestSyzygy_def)

lemma TestCLI_bodies:
  "t \<in> set (tests (TestCLI a B)) \<Longrightarrow> snd t = B ''TestCLI'' (fst t)"
  by (auto simp: TestCLI_def OrderedClassMembers_keeps_order)

lemma TestSyzygy_bodies:
  "t \<in> set (tests (TestSyzygy a B)) \<Longrightarrow> snd t = B ''TestSyzygy'' (fst t)"
  by (auto simp: TestSyzygy_def OrderedClassMembers_keeps_order)

lemma TestInteractive_bodies:
  "t \<in> set (tests (TestInteractive a B)) \<Longrightarrow>
     snd t = (if fst t = ''test_set_threads_option'' then on_self (test_set_threads_option a)
              else if fst t = ''test_fen_position_mate_1'' then on_self test_fen_position_mate_1
              else B ''TestInteractive'' (fst t))"
  by (auto simp: TestInteractive_def OrderedClassMembers_keeps_order)

lemma TestInteractive_nth:
  "tests (TestInteractive a B) ! 2
     = (''test_set_threads_option'', on_self (test_set_threads_option a))"
  "tests (TestInteractive a B) ! 10
     = (''test_fen_position_mate_1'', on_self test_fen_position_mate_1)"
  "tests (TestInteractive a B) ! 1
     = (''test_uci_command'', B ''TestInteractive'' ''test_uci_command'')"
  "tests (TestInteractive a B) ! 9
     = (''test_clear_hash'', B ''TestInteractive'' ''test_clear_hash'')"
  "length (tests (TestInteractive a B)) = 23"
  by (simp_all add: TestInteractive_def OrderedClassMembers_keeps_order)

lemma suite_lengths:
  "length (tests (TestCLI a B)) = 17" "length (tests (TestSyzygy a B)) = 5"
  by (simp_all add: TestCLI_def TestSyzygy_def OrderedClassMembers_keeps_order)

subsection \<open>Order of execution\<close>

text \<open>
  Claim C2: the registration list the metaclass builds is the list of declarations in
  source order; the runner applies the bodies of a suite in the order of that list,
  test number \<open>k\<close> in the world that the \<open>k\<close> tests declared before it leave, and
  records their outcomes in that order, whatever the names are; the three suite classes
  of the source register their test methods in the order of their class bodies, and
  the main program runs them class by class in that order.
\<close>

theorem tests_run_in_declaration_order:
  "OrderedClassMembers declarations = declarations
   \<and> results (fst (run_suite S (fw, v)))
     = results fw
       @ (if fst (before_all S (new_instance S v)) = None
          then map (\<lambda>k. (suite_name S, fst (tests S ! k),
                     test_outcome S (tests S ! k)
                       (world_after_tests S (take k (tests S))
                          (snd (before_all S (new_instance S v))))))
                 [0 ..< length (tests S)]
          else [])
   \<and> executed (trace (fst (run_suite S (fw, v))))
     = executed (trace fw)
       @ (if fst (before_all S (new_instance S v)) = None
          then map (\<lambda>t. (suite_name S, fst t)) (tests S) else [])
   \<and> executed (trace (fst (main C a B w)))
     = (if create_bench_epd C \<or> set_tsan_option C \<or> download_syzygy C then []
        else concat (map (\<lambda>j. if fst (suite_entered (suite_classes a B ! j)
                                   (suite_start (suite_classes a B) j
                                      (w\<lparr>tsan_options := True\<rparr>))) = None
                              then map (\<lambda>t. (suite_name (suite_classes a B ! j), fst t))
                                     (tests (suite_classes a B ! j))
                              else [])
                         [0 ..< length (suite_classes a B)]))
   \<and> map fst (tests (TestCLI a B)) =
        [''test_eval'', ''test_go_nodes_1000'', ''test_go_depth_10'', ''test_go_perft_4'',
         ''test_go_movetime_1000'', ''test_go_wtime_8000_btime_8000_winc_500_binc_500'',
         ''test_go_wtime_1000_btime_1000_winc_0_binc_0'',
         ''test_go_wtime_1000_btime_1000_winc_0_binc_0_movestogo_5'',
         ''test_go_movetime_200'', ''test_go_nodes_20000_searchmoves_e2e4_d2d4'',
         ''test_bench_128_threads_8_default_depth'', ''test_show'', ''test_compiler'',
         ''test_license'', ''test_uci'', ''test_export_net_verify_nnue'',
         ''test_network_equals_base'']
   \<and> map fst (tests (TestInteractive a B)) =
        [''test_startup_output'', ''test_uci_command'', ''test_set_threads_option'',
         ''test_ucinewgame_and_startpos_nodes_1000'', ''test_ucinewgame_and_startpos_moves'',
         ''test_fen_position_1'', ''test_fen_position_2_flip'',
         ''test_depth_5_with_callback'', ''test_ucinewgame_and_go_depth_9'',
         ''test_clear_hash'', ''test_fen_position_mate_1'',
         ''test_fen_position_mate_minus_1'', ''test_fen_position_fixed_node'',
         ''test_fen_position_with_mate_go_depth'', ''test_fen_position_with_mate_go_mate'',
         ''test_fen_position_with_mate_go_nodes'', ''test_fen_position_depth_27'',
         ''test_fen_position_with_mate_go_depth_and_promotion'',
         ''test_fen_position_with_mate_go_depth_and_searchmoves'',
         ''test_fen_position_with_moves_with_mate_go_depth_and_searchmoves'',
         ''test_verify_nnue_network'', ''test_multipv_setting'',
         ''test_fen_position_with_skill_level'']
   \<and> map fst (tests (TestSyzygy a B)) =
        [''test_syzygy_setup'', ''test_syzygy_bench'', ''test_syzygy_position'',
         ''test_syzygy_position_2'', ''test_syzygy_position_3'']"
proof -
  have 1: "OrderedClassMembers declarations = declarations"
    by (rule OrderedClassMembers_keeps_order)
  have 2: "results (fst (run_suite S (fw, v)))
     = results fw
       @ (if fst (before_all S (new_instance S v)) = None
          then map (\<lambda>k. (suite_name S, fst (tests S ! k),
                     test_outcome S (tests S ! k)
                       (world_after_tests S (take k (tests S))
                          (snd (before_all S (new_instance S v))))))
                 [0 ..< length (tests S)]
          else [])"
    by (simp add: run_suite_results suite_results_def suite_entered_def tests_results_def)
  have 3: "executed (trace (fst (run_suite S (fw, v))))
     = executed (trace fw)
       @ (if fst (before_all S (new_instance S v)) = None
          then map (\<lambda>t. (suite_name S, fst t)) (tests S) else [])"
    by (simp add: run_suite_trace executed_append executed_suite suite_entered_def)
  have 4: "executed (trace (fst (main C a B w)))
     = (if create_bench_epd C \<or> set_tsan_option C \<or> download_syzygy C then []
        else concat (map (\<lambda>j. if fst (suite_entered (suite_classes a B ! j)
                                   (suite_start (suite_classes a B) j
                                      (w\<lparr>tsan_options := True\<rparr>))) = None
                              then map (\<lambda>t. (suite_name (suite_classes a B ! j), fst t))
                                     (tests (suite_classes a B ! j))
                              else [])
                         [0 ..< length (suite_classes a B)]))"
    by (simp add: main_trace executed_append executed_concat executed_suite o_def)
  have 5: "map fst (tests (TestCLI a B)) =
        [''test_eval'', ''test_go_nodes_1000'', ''test_go_depth_10'', ''test_go_perft_4'',
         ''test_go_movetime_1000'', ''test_go_wtime_8000_btime_8000_winc_500_binc_500'',
         ''test_go_wtime_1000_btime_1000_winc_0_binc_0'',
         ''test_go_wtime_1000_btime_1000_winc_0_binc_0_movestogo_5'',
         ''test_go_movetime_200'', ''test_go_nodes_20000_searchmoves_e2e4_d2d4'',
         ''test_bench_128_threads_8_default_depth'', ''test_show'', ''test_compiler'',
         ''test_license'', ''test_uci'', ''test_export_net_verify_nnue'',
         ''test_network_equals_base'']"
    by (simp add: TestCLI_def OrderedClassMembers_keeps_order)
  have 6: "map fst (tests (TestInteractive a B)) =
        [''test_startup_output'', ''test_uci_command'', ''test_set_threads_option'',
         ''test_ucinewgame_and_startpos_nodes_1000'', ''test_ucinewgame_and_startpos_moves'',
         ''test_fen_position_1'', ''test_fen_position_2_flip'',
         ''test_depth_5_with_callback'', ''test_ucinewgame_and_go_depth_9'',
         ''test_clear_hash'', ''test_fen_position_mate_1'',
         ''test_fen_position_mate_minus_1'', ''test_fen_position_fixed_node'',
         ''test_fen_position_with_mate_go_depth'', ''test_fen_position_with_mate_go_mate'',
         ''test_fen_position_with_mate_go_nodes'', ''test_fen_position_depth_27'',
         ''test_fen_position_with_mate_go_depth_and_promotion'',
         ''test_fen_position_with_mate_go_depth_and_searchmoves'',
         ''test_fen_position_with_moves_with_mate_go_depth_and_searchmoves'',
         ''test_verify_nnue_network'', ''test_multipv_setting'',
         ''test_fen_position_with_skill_level'']"
    by (simp add: TestInteractive_def OrderedClassMembers_keeps_order)
  have 7: "map fst (tests (TestSyzygy a B)) =
        [''test_syzygy_setup'', ''test_syzygy_bench'', ''test_syzygy_position'',
         ''test_syzygy_position_2'', ''test_syzygy_position_3'']"
    by (simp add: TestSyzygy_def OrderedClassMembers_keeps_order)
  from 1 2 3 4 5 6 7 show ?thesis by simp
qed

text \<open>
  The example of the specification: \<open>test_b\<close>, declared first, runs before \<open>test_a\<close>,
  whose body passes only in the world that \<open>test_b\<close> leaves.
\<close>

theorem tests_run_in_declaration_order_example:
  "results (fst (run_suite example_suite (new_framework, [])))
   = [(''Example'', ''test_b'', Passed), (''Example'', ''test_a'', Passed),
      (''Example'', ''test_c'', Passed)]
   \<and> executed (trace (fst (run_suite example_suite (new_framework, []))))
     = [(''Example'', ''test_b''), (''Example'', ''test_a''), (''Example'', ''test_c'')]"
proof -
  have t: "tests example_suite
           = [(''test_b'', \<lambda>w. (None, w @ [''b''])),
              (''test_a'', \<lambda>w. (if w = [''b''] then None else Some AssertionError,
                                   w @ [''a''])),
              (''test_c'', \<lambda>w. (None, w @ [''c'']))]"
    using tests_run_in_declaration_order [THEN conjunct1] by (simp add: example_suite_def)
  have s: "suite_name example_suite = ''Example''"
          "before_all example_suite = passing" "new_instance example_suite = (\<lambda>w. [])"
          "before_each example_suite = (\<lambda>w. w)" "after_each example_suite = passing"
    by (simp_all add: example_suite_def)
  have "results (fst (run_suite example_suite (new_framework, [])))
        = [(''Example'', ''test_b'', Passed), (''Example'', ''test_a'', Passed),
           (''Example'', ''test_c'', Passed)]"
    using tests_run_in_declaration_order
      [where S = example_suite and fw = new_framework and v = "[]",
        THEN conjunct2, THEN conjunct1]
    by (simp add: t s passing_def new_framework_def test_outcome_def test_step_def upt_rec)
  moreover have "executed (trace (fst (run_suite example_suite (new_framework, []))))
     = [(''Example'', ''test_b''), (''Example'', ''test_a''), (''Example'', ''test_c'')]"
    using tests_run_in_declaration_order
      [where S = example_suite and fw = new_framework and v = "[]",
        THEN conjunct2, THEN conjunct2, THEN conjunct1]
    by (simp add: t s passing_def new_framework_def)
  ultimately show ?thesis by simp
qed

end
